theory Spec2Isabelle
  imports Main "HOL-Library.Sublist"
begin

section \<open>Values, tasks and message events\<close>

text \<open>
  A shallow embedding of \<^verbatim>\<open>src/lib/mtproto/superMessagePort.ts\<close>: one
  \<^verbatim>\<open>SuperMessagePort\<close> instance is a record of its fields plus the part of the
  JavaScript runtime its methods touch (the promises it creates, the suspended
  \<^verbatim>\<open>async\<close> frames, the armed timers) and a log of the calls it makes on ports.
  Ports are compared by identity, so a port is a number.
\<close>

type_synonym port = nat

text \<open>
  JavaScript values as far as the file looks at them: truthiness
  (\<^verbatim>\<open>error ? ... : ...\<close>), being a promise, and the object
  \<^verbatim>\<open>{cached, result}\<close> built by \<^verbatim>\<open>processAckTask\<close>.
  \<open>JObject\<close> is any other object (an \<^verbatim>\<open>Error\<close>, say), named by a label;
  \<open>JPromise p\<close> is the promise at address \<open>p\<close> of the instance's promise store.
\<close>

datatype jsval =
    Undefined
  | Null
  | JBool bool
  | JNum int
  | JStr string
  | JObject string
  | JPromise nat
  | JAcked bool jsval

fun truthy :: "jsval \<Rightarrow> bool" where
  "truthy Undefined = False"
| "truthy Null = False"
| "truthy (JBool b) = b"
| "truthy (JNum n) = (n \<noteq> 0)"
| "truthy (JStr s) = (s \<noteq> [])"
| "truthy (JObject l) = True"
| "truthy (JPromise p) = True"
| "truthy (JAcked c r) = True"

text \<open>
  The payloads of the six task types. An optional property (\<^verbatim>\<open>result?\<close>,
  \<^verbatim>\<open>error?\<close>) is an option: \<^verbatim>\<open>'result' in payload\<close> asks whether it is
  \<open>Some\<close>, and reading an absent property gives \<open>Undefined\<close>.
  \<^verbatim>\<open>withAck\<close> and \<^verbatim>\<open>void\<close> are only ever tested for truthiness, so
  \<^verbatim>\<open>undefined\<close> is \<open>False\<close>.
\<close>

datatype 't payload =
    InvokeP string jsval bool bool
  | ResultP nat "jsval option" "jsval option"
  | AckP bool nat "jsval option" "jsval option"
  | PingP
  | PongP
  | BatchP "'t list"

datatype task = Task (task_id: nat) (task_payload: "task payload") (transfer: "nat list option")

text \<open>
  The \<^verbatim>\<open>port\<close> argument of \<^verbatim>\<open>pushTask\<close> and
  \<^verbatim>\<open>postMessage\<close>: a port, \<^verbatim>\<open>undefined\<close> (the argument was left out) or
  \<^verbatim>\<open>null\<close> (a message event without a source). The three are different keys of the
  \<^verbatim>\<open>pending\<close> map.
\<close>

datatype dest = DUndefined | DNull | DPort port

record message_event =
  ev_data :: task
  ev_source :: "port option"
  ev_currentTarget :: "port option"

fun or_null :: "port option \<Rightarrow> dest" where
  "or_null None = DNull"
| "or_null (Some p) = DPort p"

text \<open>\<^verbatim>\<open>event.source || event.currentTarget\<close>\<close>

definition source_of :: "port option \<Rightarrow> port option \<Rightarrow> dest" where
  "source_of src ct = (case src of Some p \<Rightarrow> DPort p | None \<Rightarrow> or_null ct)"

section \<open>The instance and its environment\<close>

datatype effect =
    PostMessage port task
  | NotifyAll task
  | Start port
  | Close port

datatype pstate = Pending | Fulfilled jsval | Rejected jsval

datatype ping_state = PingPending | PingResolved | PingRejected

record awaiting_entry =
  resolve :: nat
  reject :: nat
  taskType :: string

text \<open>
  What a listener call comes to: a value that is not a promise, an exception, or a
  promise (\<^verbatim>\<open>result instanceof Promise\<close>), which settles later.
\<close>

datatype outcome = Returns jsval | Throws jsval | Defers

datatype settlement = Resolves jsval | Rejects jsval

text \<open>
  A \<^verbatim>\<open>processInvokeTask\<close> call suspended at \<^verbatim>\<open>await result\<close>: the
  local variables its continuation reads.
\<close>

record frame =
  fr_resultTask :: "task option"
  fr_ackTask :: "task option"
  fr_void :: bool
  fr_source :: dest

text \<open>
  What the file imports: the two context flags, the optional \<^verbatim>\<open>start\<close> and
  \<^verbatim>\<open>close\<close> methods of a port, and the listener table of
  \<^verbatim>\<open>EventListenerBase\<close> together with \<^verbatim>\<open>invokeListenerCallback\<close>,
  given as the outcome of calling a listener on a payload and a source.
\<close>

record env =
  IS_WORKER :: bool
  IS_SERVICE_WORKER :: bool
  has_start :: "port \<Rightarrow> bool"
  has_close :: "port \<Rightarrow> bool"
  listeners :: "string \<Rightarrow> (jsval \<Rightarrow> dest \<Rightarrow> outcome) list"

text \<open>
  The fields of the class, then the runtime state: \<open>promises\<close> holds the futures made by
  \<^verbatim>\<open>invoke\<close> and \<^verbatim>\<open>processAckTask\<close> (a resolve or reject function is
  the address of its promise), \<open>pings\<close> the promises made by \<^verbatim>\<open>sendPing\<close>
  (pending while the \<^verbatim>\<open>PING_TIMEOUT\<close> timer is armed), \<open>pingTimers\<close> the
  armed \<^verbatim>\<open>sendPingWithTimeout\<close> timers, \<open>suspended\<close> the frames waiting at
  \<^verbatim>\<open>await result\<close>, and \<open>effects\<close> every call made on a port, in order.
\<close>

record smp =
  listenPorts :: "port list"
  sendPorts :: "port list"
  pingResolves :: "port \<rightharpoonup> nat"
  taskId :: nat
  awaiting :: "nat \<rightharpoonup> awaiting_entry"
  pending :: "(dest \<times> task list) list"
  releasingPending :: bool
  promises :: "pstate list"
  pings :: "(port \<times> ping_state) list"
  pingTimers :: "port list"
  suspended :: "frame list"
  effects :: "effect list"

definition constructor :: smp where
  "constructor =
    \<lparr> listenPorts = [], sendPorts = [], pingResolves = Map.empty, taskId = 0,
      awaiting = Map.empty, pending = [], releasingPending = False,
      promises = [], pings = [], pingTimers = [], suspended = [], effects = [] \<rparr>"

text \<open>
  Modelled from the spec: \<^verbatim>\<open>helpers/array/indexOfAndSplice\<close> is imported but is not
  among the sources. The spec has the two port arrays as sets and says of the two calls:
  "the destination is removed from both the listen and send endpoint sets", and the fan-out
  goes "to every registered send destination other than the excluded one". So after the call
  the item is not in the array, and nothing happens when the item is absent or is not a port.
\<close>

fun indexOfAndSplice :: "port list \<Rightarrow> dest \<Rightarrow> port list" where
  "indexOfAndSplice xs (DPort p) = removeAll p xs"
| "indexOfAndSplice xs d = xs"

section \<open>Tasks and the pending queue\<close>

definition createTask :: "smp \<Rightarrow> task payload \<Rightarrow> nat list option \<Rightarrow> task \<times> smp" where
  "createTask s pl tr = (Task (taskId s) pl tr, s\<lparr>taskId := taskId s + 1\<rparr>)"

definition createInvokeTask ::
  "smp \<Rightarrow> string \<Rightarrow> jsval \<Rightarrow> bool \<Rightarrow> bool \<Rightarrow> nat list option \<Rightarrow> task \<times> smp" where
  "createInvokeTask s ty pl withAck void tr = createTask s (InvokeP ty pl withAck void) tr"

text \<open>
  \<^verbatim>\<open>releasePending\<close> is \<^verbatim>\<open>async\<close>: the call itself runs up to
  \<^verbatim>\<open>await pause(0)\<close>, and the rest runs one timer tick later.
  \<open>releasePending\<close> is the first half, \<open>releasePending_resume\<close> the second.
\<close>

definition releasePending :: "smp \<Rightarrow> smp" where
  "releasePending s =
    (if listenPorts s = [] \<or> releasingPending s then s else s\<lparr>releasingPending := True\<rparr>)"

fun push_pending :: "(dest \<times> task list) list \<Rightarrow> dest \<Rightarrow> task \<Rightarrow> (dest \<times> task list) list" where
  "push_pending [] d t = [(d, [t])]"
| "push_pending ((k, ts) # q) d t =
    (if k = d then (k, ts @ [t]) # q else (k, ts) # push_pending q d t)"

definition pushTask :: "smp \<Rightarrow> task \<Rightarrow> dest \<Rightarrow> smp" where
  "pushTask s t d = releasePending (s\<lparr>pending := push_pending (pending s) d t\<rparr>)"

text \<open>The tasks queued for one destination (\<^verbatim>\<open>this.pending.get(port)\<close>).\<close>

fun queued :: "(dest \<times> task list) list \<Rightarrow> dest \<Rightarrow> task list" where
  "queued [] d = []"
| "queued ((k, ts) # q) d = (if k = d then ts else queued q d)"

definition postMessage :: "smp \<Rightarrow> dest \<Rightarrow> task \<Rightarrow> smp" where
  "postMessage s d t =
    s\<lparr>effects := effects s @
      map (\<lambda>p. PostMessage p t) (case d of DPort p \<Rightarrow> [p] | DUndefined \<Rightarrow> sendPorts s | DNull \<Rightarrow> sendPorts s)\<rparr>"

text \<open>
  The inner loop of \<^verbatim>\<open>releasePending\<close> over one destination's tasks.
  \<open>batchTask\<close> says that the variable \<^verbatim>\<open>batchTask\<close> is set; the batch it
  points to is then the last element of \<open>tasks\<close>, and
  \<^verbatim>\<open>batchTask.payload.push(task)\<close> extends it there.
\<close>

fun batch_push :: "task \<Rightarrow> task \<Rightarrow> task" where
  "batch_push (Task i (BatchP xs) tr) t = Task i (BatchP (xs @ [t])) tr"
| "batch_push b t = b"

fun merge_tasks :: "smp \<Rightarrow> task list \<Rightarrow> bool \<Rightarrow> task list \<Rightarrow> task list \<times> smp" where
  "merge_tasks s tasks batchTask [] = (tasks, s)"
| "merge_tasks s tasks batchTask (t # portTasks) =
    (if transfer t \<noteq> None then merge_tasks s (tasks @ [t]) False portTasks
     else if batchTask
       then merge_tasks s (butlast tasks @ [batch_push (last tasks) t]) True portTasks
       else (case createTask s (BatchP []) None of
               (b, s') \<Rightarrow> merge_tasks s' (tasks @ [batch_push b t]) True portTasks))"

definition send_task :: "env \<Rightarrow> dest \<Rightarrow> task \<Rightarrow> smp \<Rightarrow> smp" where
  "send_task e d t s =
    (if IS_SERVICE_WORKER e then s\<lparr>effects := effects s @ [NotifyAll t]\<rparr>
     else postMessage s d t)"

definition release_port :: "env \<Rightarrow> dest \<times> task list \<Rightarrow> smp \<Rightarrow> smp" where
  "release_port e entry s =
    (case merge_tasks s [] False (snd entry) of
       (tasks, s') \<Rightarrow> fold (send_task e (fst entry)) tasks s')"

definition releasePending_resume :: "env \<Rightarrow> smp \<Rightarrow> smp" where
  "releasePending_resume e s =
    (fold (release_port e) (pending s) s)\<lparr>pending := [], releasingPending := False\<rparr>"

section \<open>Calling the other side\<close>

definition invokeVoid :: "smp \<Rightarrow> string \<Rightarrow> jsval \<Rightarrow> dest \<Rightarrow> nat list option \<Rightarrow> smp" where
  "invokeVoid s ty pl d tr =
    (case createInvokeTask s ty pl False True tr of (t, s') \<Rightarrow> pushTask s' t d)"

text \<open>
  \<^verbatim>\<open>invoke\<close> returns its promise: here its address, with the new state. The
  \<^verbatim>\<open>IS_WORKER\<close> branch only logs, and is left out.
\<close>

definition new_promise :: "smp \<Rightarrow> pstate \<Rightarrow> nat \<times> smp" where
  "new_promise s st = (length (promises s), s\<lparr>promises := promises s @ [st]\<rparr>)"

definition invoke ::
  "smp \<Rightarrow> string \<Rightarrow> jsval \<Rightarrow> bool \<Rightarrow> dest \<Rightarrow> nat list option \<Rightarrow> nat \<times> smp" where
  "invoke s ty pl withAck d tr =
    (case new_promise s Pending of
       (p, s1) \<Rightarrow>
         (case createInvokeTask s1 ty pl withAck False tr of
            (t, s2) \<Rightarrow>
              (p, pushTask
                    (s2\<lparr>awaiting := (awaiting s2)(task_id t \<mapsto>
                          \<lparr>resolve = p, reject = p, taskType = ty\<rparr>)\<rparr>)
                    t d)))"

definition invokeExceptSource :: "smp \<Rightarrow> string \<Rightarrow> jsval \<Rightarrow> dest \<Rightarrow> smp" where
  "invokeExceptSource s ty pl src =
    fold (\<lambda>target s'. invokeVoid s' ty pl (DPort target) None)
      (indexOfAndSplice (sendPorts s) src) s"

section \<open>Replies\<close>

text \<open>
  Calling a resolve or reject function settles its promise if it is still pending, and does
  nothing otherwise.
\<close>

definition settle :: "smp \<Rightarrow> nat \<Rightarrow> pstate \<Rightarrow> smp" where
  "settle s p st =
    (if p < length (promises s) \<and> promises s ! p = Pending
     then s\<lparr>promises := (promises s)[p := st]\<rparr> else s)"

fun or_undefined :: "jsval option \<Rightarrow> jsval" where
  "or_undefined None = Undefined"
| "or_undefined (Some v) = v"

definition processResultTask :: "smp \<Rightarrow> nat \<Rightarrow> jsval option \<Rightarrow> jsval option \<Rightarrow> smp" where
  "processResultTask s tid res err =
    (case awaiting s tid of
       None \<Rightarrow> s
     | Some deferred \<Rightarrow>
         (let s' = (if truthy (or_undefined err)
                    then settle s (reject deferred) (Rejected (or_undefined err))
                    else settle s (resolve deferred) (Fulfilled (or_undefined res)))
          in s'\<lparr>awaiting := (awaiting s')(tid := None)\<rparr>))"

definition processAckTask ::
  "smp \<Rightarrow> bool \<Rightarrow> nat \<Rightarrow> jsval option \<Rightarrow> jsval option \<Rightarrow> smp" where
  "processAckTask s cached tid res err =
    (case awaiting s tid of
       None \<Rightarrow> s
     | Some deferred \<Rightarrow>
         (let previousResolve = resolve deferred in
          if cached then
            (case new_promise s
                    (case res of Some v \<Rightarrow> Fulfilled v | None \<Rightarrow> Rejected (or_undefined err)) of
               (q, s1) \<Rightarrow> settle s1 previousResolve (Fulfilled (JAcked cached (JPromise q))))
          else
            (case new_promise s Pending of
               (q, s1) \<Rightarrow>
                 settle
                   (s1\<lparr>awaiting := (awaiting s1)(tid \<mapsto> deferred\<lparr>resolve := q, reject := q\<rparr>)\<rparr>)
                   previousResolve (Fulfilled (JAcked cached (JPromise q))))))"

text \<open>The reply goes to \<^verbatim>\<open>event.source\<close>, not to \<^verbatim>\<open>source\<close>.\<close>

definition processPingTask :: "smp \<Rightarrow> port option \<Rightarrow> smp" where
  "processPingTask s event_source =
    (case createTask s PongP None of (t, s') \<Rightarrow> pushTask s' t (or_null event_source))"

section \<open>Liveness\<close>

text \<open>
  \<^verbatim>\<open>sendPing\<close> makes a promise, stores its resolve function under the port, queues the
  ping and arms the timer that rejects the promise. The two reactions registered with
  \<^verbatim>\<open>promise.then\<close> run as soon as the promise settles, in the same step.
\<close>

definition sendPing :: "smp \<Rightarrow> port \<Rightarrow> smp" where
  "sendPing s port =
    (let i = length (pings s);
         s1 = s\<lparr>pings := pings s @ [(port, PingPending)],
                pingResolves := (pingResolves s)(port \<mapsto> i)\<rparr>
     in case createTask s1 PingP None of (t, s2) \<Rightarrow> pushTask s2 t (DPort port))"

definition ping_pending :: "smp \<Rightarrow> nat \<Rightarrow> bool" where
  "ping_pending s i = (i < length (pings s) \<and> snd (pings s ! i) = PingPending)"

text \<open>The promise of ping \<open>i\<close> is resolved; \<^verbatim>\<open>loop\<close> is \<^verbatim>\<open>IS_WORKER\<close>.\<close>

definition ping_resolved :: "env \<Rightarrow> smp \<Rightarrow> nat \<Rightarrow> smp" where
  "ping_resolved e s i =
    (if ping_pending s i then
       (let port = fst (pings s ! i) in
        s\<lparr>pings := (pings s)[i := (port, PingResolved)],
          pingResolves := (pingResolves s)(port := None),
          pingTimers := (if IS_WORKER e then pingTimers s @ [port] else pingTimers s)\<rparr>)
     else s)"

text \<open>The \<^verbatim>\<open>PING_TIMEOUT\<close> timer of ping \<open>i\<close> fires and rejects its promise.\<close>

definition ping_timeout :: "env \<Rightarrow> smp \<Rightarrow> nat \<Rightarrow> smp" where
  "ping_timeout e s i =
    (if ping_pending s i then
       (let port = fst (pings s ! i) in
        s\<lparr>pings := (pings s)[i := (port, PingRejected)],
          pingResolves := (pingResolves s)(port := None),
          listenPorts := indexOfAndSplice (listenPorts s) (DPort port),
          sendPorts := indexOfAndSplice (sendPorts s) (DPort port),
          effects := effects s @ (if has_close e port then [Close port] else [])\<rparr>)
     else s)"

text \<open>The \<open>k\<close>-th armed \<^verbatim>\<open>sendPingWithTimeout\<close> timer fires.\<close>

definition ping_interval :: "smp \<Rightarrow> nat \<Rightarrow> smp" where
  "ping_interval s k =
    (if k < length (pingTimers s) then
       (let port = pingTimers s ! k;
            s' = s\<lparr>pingTimers := take k (pingTimers s) @ drop (Suc k) (pingTimers s)\<rparr>
        in if port \<in> set (sendPorts s') then sendPing s' port else s')
     else s)"

definition processPongTask :: "env \<Rightarrow> smp \<Rightarrow> dest \<Rightarrow> smp" where
  "processPongTask e s src =
    (case src of
       DPort p \<Rightarrow>
         (case pingResolves s p of
            None \<Rightarrow> s
          | Some i \<Rightarrow> ping_resolved e (s\<lparr>pingResolves := (pingResolves s)(p := None)\<rparr>) i)
     | DUndefined \<Rightarrow> s
     | DNull \<Rightarrow> s)"

definition attachListenPort :: "smp \<Rightarrow> port \<Rightarrow> smp" where
  "attachListenPort s port = s\<lparr>listenPorts := listenPorts s @ [port]\<rparr>"

definition attachSendPort :: "env \<Rightarrow> smp \<Rightarrow> port \<Rightarrow> smp" where
  "attachSendPort e s port =
    (let s1 = (if has_start e port then s\<lparr>effects := effects s @ [Start port]\<rparr> else s)
     in sendPing (s1\<lparr>sendPorts := sendPorts s1 @ [port]\<rparr>) port)"

definition attachPort :: "env \<Rightarrow> smp \<Rightarrow> port \<Rightarrow> smp" where
  "attachPort e s port = attachSendPort e (attachListenPort s port) port"

section \<open>Dispatch\<close>

fun set_result :: "task \<Rightarrow> jsval \<Rightarrow> task" where
  "set_result (Task i (ResultP k r er) tr) v = Task i (ResultP k (Some v) er) tr"
| "set_result (Task i (AckP c k r er) tr) v = Task i (AckP c k (Some v) er) tr"
| "set_result t v = t"

fun set_error :: "task \<Rightarrow> jsval \<Rightarrow> task" where
  "set_error (Task i (ResultP k r er) tr) v = Task i (ResultP k r (Some v)) tr"
| "set_error (Task i (AckP c k r er) tr) v = Task i (AckP c k r (Some v)) tr"
| "set_error t v = t"

fun set_cached :: "task \<Rightarrow> bool \<Rightarrow> task" where
  "set_cached (Task i (AckP c k r er) tr) b = Task i (AckP b k r er) tr"
| "set_cached t b = t"

fun cached_of :: "task \<Rightarrow> bool" where
  "cached_of (Task i (AckP c k r er) tr) = c"
| "cached_of t = False"

text \<open>
  \<^verbatim>\<open>this.listeners[innerTask.type]\<close>, the \<^verbatim>\<open>no listener\<close> error and the call
  of the first listener.
\<close>

definition call_listener :: "env \<Rightarrow> string \<Rightarrow> jsval \<Rightarrow> dest \<Rightarrow> outcome" where
  "call_listener e ty pl src =
    (case listeners e ty of
       [] \<Rightarrow> Throws (JObject ''Error: no listener'')
     | listener # rest \<Rightarrow> listener pl src)"

text \<open>
  The \<^verbatim>\<open>catch\<close> block of \<^verbatim>\<open>processInvokeTask\<close> and the
  \<^verbatim>\<open>pushTask(resultTask, source)\<close> after it. A result task exists whenever the call
  is not void, so the last case never runs.
\<close>

definition invoke_failed :: "smp \<Rightarrow> frame \<Rightarrow> jsval \<Rightarrow> smp" where
  "invoke_failed s f err =
    (if fr_void f then s
     else (case fr_ackTask f of
             Some a \<Rightarrow>
               (if cached_of a then pushTask s (set_error a err) (fr_source f)
                else (case fr_resultTask f of
                        Some r \<Rightarrow> pushTask s (set_error r err) (fr_source f)
                      | None \<Rightarrow> s))
           | None \<Rightarrow>
               (case fr_resultTask f of
                  Some r \<Rightarrow> pushTask s (set_error r err) (fr_source f)
                | None \<Rightarrow> s)))"

text \<open>The end of the \<^verbatim>\<open>try\<close> block: the result is known.\<close>

definition invoke_done :: "smp \<Rightarrow> frame \<Rightarrow> jsval \<Rightarrow> smp" where
  "invoke_done s f v =
    (case fr_resultTask f of
       Some r \<Rightarrow> pushTask s (set_result r v) (fr_source f)
     | None \<Rightarrow> s)"

text \<open>
  \<^verbatim>\<open>processInvokeTask\<close> up to \<^verbatim>\<open>await result\<close>. With a promise in hand
  the call is suspended: its frame is added to \<open>suspended\<close>.
\<close>

definition processInvokeTask ::
  "env \<Rightarrow> smp \<Rightarrow> nat \<Rightarrow> string \<Rightarrow> jsval \<Rightarrow> bool \<Rightarrow> bool \<Rightarrow> dest \<Rightarrow> smp" where
  "processInvokeTask e s i ty pl withAck void src =
    (case (if void then (None, s)
           else (case createTask s (ResultP i None None) None of (r, s') \<Rightarrow> (Some r, s'))) of
       (resultTask, s1) \<Rightarrow>
    (case (if withAck
           then (case createTask s1 (AckP True i None None) None of (a, s') \<Rightarrow> (Some a, s'))
           else (None, s1)) of
       (ackTask, s2) \<Rightarrow>
    (case call_listener e ty pl src of
       Throws err \<Rightarrow>
         invoke_failed s2
           \<lparr>fr_resultTask = resultTask, fr_ackTask = ackTask, fr_void = void, fr_source = src\<rparr> err
     | Returns v \<Rightarrow>
         (if void then s2
          else (case ackTask of
                  Some a \<Rightarrow> pushTask s2 (set_result (set_cached a True) v) src
                | None \<Rightarrow>
                    invoke_done s2
                      \<lparr>fr_resultTask = resultTask, fr_ackTask = ackTask, fr_void = void,
                        fr_source = src\<rparr> v))
     | Defers \<Rightarrow>
         (if void then s2
          else (case ackTask of
                  Some a \<Rightarrow>
                    (let s3 = pushTask s2 (set_cached a False) src in
                     s3\<lparr>suspended := suspended s3 @
                          [\<lparr>fr_resultTask = resultTask, fr_ackTask = Some (set_cached a False),
                            fr_void = void, fr_source = src\<rparr>]\<rparr>)
                | None \<Rightarrow>
                    s2\<lparr>suspended := suspended s2 @
                         [\<lparr>fr_resultTask = resultTask, fr_ackTask = None,
                           fr_void = void, fr_source = src\<rparr>]\<rparr>)))))"

text \<open>The awaited promise of frame \<open>k\<close> settles and the frame runs to its end.\<close>

definition processInvokeTask_resume :: "smp \<Rightarrow> nat \<Rightarrow> settlement \<Rightarrow> smp" where
  "processInvokeTask_resume s k st =
    (if k < length (suspended s) then
       (let f = suspended s ! k;
            s' = s\<lparr>suspended := take k (suspended s) @ drop (Suc k) (suspended s)\<rparr>
        in case st of
             Resolves v \<Rightarrow> invoke_done s' f v
           | Rejects err \<Rightarrow> invoke_failed s' f err)
     else s)"

text \<open>
  \<^verbatim>\<open>onMessage\<close>: a batch is replayed task by task with the source and the current
  target of the event it came in.
\<close>

fun dispatch :: "env \<Rightarrow> port option \<Rightarrow> port option \<Rightarrow> task \<Rightarrow> smp \<Rightarrow> smp" where
  "dispatch e src ct (Task i (BatchP ts) tr) s = fold (dispatch e src ct) ts s"
| "dispatch e src ct (Task i (ResultP k r er) tr) s = processResultTask s k r er"
| "dispatch e src ct (Task i (AckP c k r er) tr) s = processAckTask s c k r er"
| "dispatch e src ct (Task i (InvokeP ty pl withAck void) tr) s =
     processInvokeTask e s i ty pl withAck void (source_of src ct)"
| "dispatch e src ct (Task i PingP tr) s = processPingTask s src"
| "dispatch e src ct (Task i PongP tr) s = processPongTask e s (source_of src ct)"

definition onMessage :: "env \<Rightarrow> smp \<Rightarrow> message_event \<Rightarrow> smp" where
  "onMessage e s ev = dispatch e (ev_source ev) (ev_currentTarget ev) (ev_data ev) s"

section \<open>Runs\<close>

text \<open>
  Everything that can happen to an instance: a call of its public interface, a message, or
  a timer or promise of its own coming due. The runtime serialises them.
\<close>

datatype event =
    AttachPort port
  | AttachListenPort port
  | AttachSendPort port
  | CallInvoke string jsval bool dest "nat list option"
  | CallInvokeVoid string jsval dest "nat list option"
  | CallInvokeExceptSource string jsval dest
  | Message message_event
  | FlushTick
  | PingTimeout nat
  | PingInterval nat
  | HandlerSettled nat settlement

fun step :: "env \<Rightarrow> event \<Rightarrow> smp \<Rightarrow> smp" where
  "step e (AttachPort p) s = attachPort e s p"
| "step e (AttachListenPort p) s = attachListenPort s p"
| "step e (AttachSendPort p) s = attachSendPort e s p"
| "step e (CallInvoke ty pl withAck d tr) s = snd (invoke s ty pl withAck d tr)"
| "step e (CallInvokeVoid ty pl d tr) s = invokeVoid s ty pl d tr"
| "step e (CallInvokeExceptSource ty pl src) s = invokeExceptSource s ty pl src"
| "step e (Message ev) s = onMessage e s ev"
| "step e FlushTick s = (if releasingPending s then releasePending_resume e s else s)"
| "step e (PingTimeout i) s = ping_timeout e s i"
| "step e (PingInterval k) s = ping_interval s k"
| "step e (HandlerSettled k st) s = processInvokeTask_resume s k st"

definition run :: "env \<Rightarrow> event list \<Rightarrow> smp \<Rightarrow> smp" where
  "run e evs s = fold (step e) evs s"

section \<open>Notions used to state the properties\<close>

text \<open>The batch task number \<open>i\<close> that merges \<open>ts\<close>, if there is anything to merge.\<close>

definition batch_of :: "nat \<Rightarrow> task list \<Rightarrow> task list" where
  "batch_of i ts = (if ts = [] then [] else [Task i (BatchP ts) None])"

text \<open>
  \<open>only_enqueues s s'\<close>: from \<open>s\<close> to \<open>s'\<close> the ports and the log are unchanged,
  every queue has only grown at its end, and a flush is scheduled in \<open>s'\<close> only if one was
  scheduled in \<open>s\<close> or a listen port is attached.
\<close>

definition only_enqueues :: "smp \<Rightarrow> smp \<Rightarrow> bool" where
  "only_enqueues s s' \<longleftrightarrow>
     sendPorts s' = sendPorts s \<and> listenPorts s' = listenPorts s \<and> effects s' = effects s \<and>
     (\<forall>d. prefix (queued (pending s) d) (queued (pending s') d)) \<and>
     (releasingPending s' \<longrightarrow> releasingPending s \<or> listenPorts s \<noteq> [])"

text \<open>The transport sends of a log, and the ports a log posts to.\<close>

fun is_send :: "effect \<Rightarrow> bool" where
  "is_send (PostMessage p t) = True"
| "is_send (NotifyAll t) = True"
| "is_send (Start p) = False"
| "is_send (Close p) = False"

definition sends :: "effect list \<Rightarrow> effect list" where
  "sends es = filter is_send es"


text \<open>Events that attach a listen port, and events that attach \<open>p\<close> as a send port.\<close>

fun attaches_listen :: "event \<Rightarrow> bool" where
  "attaches_listen (AttachPort p) = True"
| "attaches_listen (AttachListenPort p) = True"
| "attaches_listen ev = False"


text \<open>No listen port and no flush under way; and what is kept from \<open>s\<close> to \<open>s'\<close> then.\<close>

definition idle :: "smp \<Rightarrow> bool" where
  "idle s \<longleftrightarrow> listenPorts s = [] \<and> \<not> releasingPending s"

definition kept :: "smp \<Rightarrow> smp \<Rightarrow> bool" where
  "kept s s' \<longleftrightarrow> sends (effects s') = sends (effects s) \<and>
      (\<forall>d. prefix (queued (pending s) d) (queued (pending s') d))"

section \<open>A sample environment\<close>

text \<open>
  An environment for the closed examples: neither a worker nor a service worker, every port
  has a \<^verbatim>\<open>close\<close> method, and three listeners are registered: \<open>now\<close> returns its
  payload, \<open>later\<close> returns a promise, \<open>fail\<close> throws its payload.
\<close>

definition sample_env :: env where
  "sample_env =
    \<lparr> IS_WORKER = False, IS_SERVICE_WORKER = False,
      has_start = (\<lambda>p. False), has_close = (\<lambda>p. True),
      listeners = (\<lambda>ty. if ty = ''now'' then [\<lambda>pl src. Returns pl]
                         else if ty = ''later'' then [\<lambda>pl src. Defers]
                         else if ty = ''fail'' then [\<lambda>pl src. Throws pl]
                         else []) \<rparr>"

lemmas model_defs =
  constructor_def sample_env_def run_def onMessage_def source_of_def
  createTask_def createInvokeTask_def releasePending_def pushTask_def postMessage_def
  send_task_def release_port_def releasePending_resume_def
  invokeVoid_def new_promise_def invoke_def invokeExceptSource_def
  settle_def processResultTask_def processAckTask_def processPingTask_def
  sendPing_def ping_pending_def ping_resolved_def ping_timeout_def ping_interval_def
  processPongTask_def attachListenPort_def attachSendPort_def attachPort_def
  call_listener_def invoke_failed_def invoke_done_def processInvokeTask_def
  processInvokeTask_resume_def

section \<open>Basic facts about the queue\<close>

lemma queued_push_same: "queued (push_pending q d t) d = queued q d @ [t]"
  by (induction q) auto

lemma queued_push_other: "d' \<noteq> d \<Longrightarrow> queued (push_pending q d t) d' = queued q d'"
  by (induction q) auto

lemma pending_releasePending: "pending (releasePending s) = pending s"
  by (simp add: releasePending_def)

lemma effects_releasePending: "effects (releasePending s) = effects s"
  by (simp add: releasePending_def)

lemma pending_pushTask: "pending (pushTask s t d) = push_pending (pending s) d t"
  by (simp add: pushTask_def releasePending_def)

lemma effects_pushTask: "effects (pushTask s t d) = effects s"
  by (simp add: pushTask_def releasePending_def)

lemma suspended_pushTask: "suspended (pushTask s t d) = suspended s"
  by (simp add: pushTask_def releasePending_def)

lemma promises_pushTask: "promises (pushTask s t d) = promises s"
  by (simp add: pushTask_def releasePending_def)

lemma awaiting_pushTask: "awaiting (pushTask s t d) = awaiting s"
  by (simp add: pushTask_def releasePending_def)

lemma taskId_pushTask: "taskId (pushTask s t d) = taskId s"
  by (simp add: pushTask_def releasePending_def)

lemma sendPorts_pushTask: "sendPorts (pushTask s t d) = sendPorts s"
  by (simp add: pushTask_def releasePending_def)

lemma listenPorts_pushTask: "listenPorts (pushTask s t d) = listenPorts s"
  by (simp add: pushTask_def releasePending_def)

section \<open>Void calls are never answered\<close>

lemma processInvokeTask_void:
  "pending (processInvokeTask e s i ty pl withAck True src) = pending s \<and>
   effects (processInvokeTask e s i ty pl withAck True src) = effects s \<and>
   suspended (processInvokeTask e s i ty pl withAck True src) = suspended s \<and>
   releasingPending (processInvokeTask e s i ty pl withAck True src) = releasingPending s"
  by (simp add: processInvokeTask_def createTask_def invoke_failed_def split: outcome.splits)

text \<open>
  C7. \<^verbatim>\<open>invokeVoid(op, args)\<close> queues an invoke task marked void and without
  \<^verbatim>\<open>withAck\<close>. When the other side receives that task, alone or as the content of a
  batch, it queues nothing and sends nothing, and no frame is left suspended that could
  send a reply later: no Result and no Ack, whatever the listener table holds for the
  operation and whatever the listener does (returns, returns a promise, throws, or is
  absent).
\<close>

theorem invokeVoid_never_answered:
  "queued (pending (invokeVoid s ty pl d tr)) d =
     queued (pending s) d @ [Task (taskId s) (InvokeP ty pl False True) tr] \<and>
   pending (onMessage e r \<lparr>ev_data = Task (taskId s) (InvokeP ty pl False True) tr,
                           ev_source = src, ev_currentTarget = ct\<rparr>) = pending r \<and>
   effects (onMessage e r \<lparr>ev_data = Task (taskId s) (InvokeP ty pl False True) tr,
                           ev_source = src, ev_currentTarget = ct\<rparr>) = effects r \<and>
   suspended (onMessage e r \<lparr>ev_data = Task (taskId s) (InvokeP ty pl False True) tr,
                             ev_source = src, ev_currentTarget = ct\<rparr>) = suspended r \<and>
   pending (onMessage e r \<lparr>ev_data = Task b (BatchP [Task (taskId s) (InvokeP ty pl False True) tr]) None,
                           ev_source = src, ev_currentTarget = ct\<rparr>) = pending r \<and>
   effects (onMessage e r \<lparr>ev_data = Task b (BatchP [Task (taskId s) (InvokeP ty pl False True) tr]) None,
                           ev_source = src, ev_currentTarget = ct\<rparr>) = effects r \<and>
   suspended (onMessage e r \<lparr>ev_data = Task b (BatchP [Task (taskId s) (InvokeP ty pl False True) tr]) None,
                             ev_source = src, ev_currentTarget = ct\<rparr>) = suspended r"
proof -
  have "queued (pending (invokeVoid s ty pl d tr)) d =
     queued (pending s) d @ [Task (taskId s) (InvokeP ty pl False True) tr]"
    by (simp add: invokeVoid_def createInvokeTask_def createTask_def pending_pushTask
        queued_push_same)
  then show ?thesis
    by (simp add: onMessage_def processInvokeTask_void)
qed

section \<open>Replies to unknown calls\<close>

text \<open>
  C10. A Result or Ack task whose \<^verbatim>\<open>taskId\<close> has no entry in the awaiting table
  changes nothing: the whole state after \<^verbatim>\<open>onMessage\<close> is the state before it (no
  entry made or changed, nothing queued or sent, no promise touched), whether the task comes
  alone or inside a batch. \<^verbatim>\<open>onMessage\<close> has no failing branch on the way.
\<close>

theorem unknown_reply_ignored:
  assumes "awaiting s k = None"
  shows "onMessage e s \<lparr>ev_data = Task i (ResultP k r er) tr,
                         ev_source = src, ev_currentTarget = ct\<rparr> = s \<and>
         onMessage e s \<lparr>ev_data = Task i (AckP c k r er) tr,
                         ev_source = src, ev_currentTarget = ct\<rparr> = s \<and>
         onMessage e s \<lparr>ev_data = Task b (BatchP [Task i (ResultP k r er) tr,
                                                    Task j (AckP c k r' er') tr']) None,
                         ev_source = src, ev_currentTarget = ct\<rparr> = s"
  using assms by (simp add: onMessage_def processResultTask_def processAckTask_def)

theorem unknown_reply_ignored_witness:
  "awaiting constructor 3 = None \<and>
   onMessage sample_env constructor
     \<lparr>ev_data = Task 8 (ResultP 3 (Some (JNum 1)) None) None,
      ev_source = Some 1, ev_currentTarget = None\<rparr> = constructor \<and>
   onMessage sample_env constructor
     \<lparr>ev_data = Task 8 (AckP True 3 (Some (JNum 1)) None) None,
      ev_source = Some 1, ev_currentTarget = None\<rparr> = constructor"
  using unknown_reply_ignored [of constructor 3 sample_env 8 "Some (JNum 1)" None None
      "Some 1" None True]
  by (simp add: constructor_def)

section \<open>The awaiting table\<close>

lemma invoke_registers:
  "awaiting (snd (invoke s ty pl withAck d tr)) (taskId s) =
     Some \<lparr>resolve = length (promises s), reject = length (promises s), taskType = ty\<rparr> \<and>
   taskId (snd (invoke s ty pl withAck d tr)) = taskId s + 1"
  by (simp add: invoke_def new_promise_def createInvokeTask_def createTask_def
      awaiting_pushTask taskId_pushTask)

lemma result_removes_entry: "awaiting (processResultTask s k r er) k = None"
  by (simp add: processResultTask_def settle_def Let_def split: option.splits)

lemma ack_keeps_entry:
  "awaiting s k = Some d \<Longrightarrow> awaiting (processAckTask s True k r er) k = Some d"
  by (simp add: processAckTask_def settle_def new_promise_def Let_def split: option.splits)

text \<open>
  C1 (the code departs from it). \<^verbatim>\<open>invoke\<close> with \<^verbatim>\<open>withAck\<close> registers
  entry 0; the other side, whose listener answers at once, queues the final Ack
  (\<^verbatim>\<open>cached: true\<close>); on receipt of that Ack the future of the call is fulfilled,
  and entry 0 is still in the awaiting table: \<^verbatim>\<open>processAckTask\<close> never deletes.
\<close>

theorem cached_ack_leaves_entry:
  "awaiting (run sample_env [CallInvoke ''now'' (JNum 1) True (DPort 1) None] constructor) 0 =
     Some \<lparr>resolve = 0, reject = 0, taskType = ''now''\<rparr> \<and>
   pending (run sample_env
     [Message \<lparr>ev_data = Task 0 (InvokeP ''now'' (JNum 1) True False) None,
               ev_source = Some 2, ev_currentTarget = None\<rparr>] constructor) =
     [(DPort 2, [Task 1 (AckP True 0 (Some (JNum 1)) None) None])] \<and>
   promises (run sample_env
     [CallInvoke ''now'' (JNum 1) True (DPort 1) None,
      Message \<lparr>ev_data = Task 1 (AckP True 0 (Some (JNum 1)) None) None,
               ev_source = Some 1, ev_currentTarget = None\<rparr>] constructor) =
     [Fulfilled (JAcked True (JPromise 1)), Fulfilled (JNum 1)] \<and>
   awaiting (run sample_env
     [CallInvoke ''now'' (JNum 1) True (DPort 1) None,
      Message \<lparr>ev_data = Task 1 (AckP True 0 (Some (JNum 1)) None) None,
               ev_source = Some 1, ev_currentTarget = None\<rparr>] constructor) 0 =
     Some \<lparr>resolve = 0, reject = 0, taskType = ''now''\<rparr>"
  by (simp add: model_defs)

section \<open>Errors of the listener\<close>

text \<open>
  What \<^verbatim>\<open>processResultTask\<close> does to the future of a registered call: the error
  field decides by its truthiness, not by its presence.
\<close>

lemma result_settles:
  assumes "awaiting s k = Some d" "resolve d = p" "reject d = p"
    "p < length (promises s)" "promises s ! p = Pending"
  shows "promises (processResultTask s k r er) ! p =
           (if truthy (or_undefined er) then Rejected (or_undefined er)
            else Fulfilled (or_undefined r))"
  using assms by (simp add: processResultTask_def settle_def)

text \<open>
  What the receiving side queues for the source of a call that is not void: the value or
  the exception of the listener, the \<^verbatim>\<open>no listener\<close> error, and for a promise the
  Ack at once (if asked for) and the Result when the promise settles.
\<close>

lemma listener_outcome_reported:
  assumes "listeners e ty = l # ls"
  shows "l pl src = Returns v \<Longrightarrow>
           pending (processInvokeTask e r i ty pl False False src) =
             push_pending (pending r) src (Task (taskId r) (ResultP i (Some v) None) None)"
    and "l pl src = Throws err \<Longrightarrow>
           pending (processInvokeTask e r i ty pl False False src) =
             push_pending (pending r) src (Task (taskId r) (ResultP i None (Some err)) None)"
    and "l pl src = Throws err \<Longrightarrow>
           pending (processInvokeTask e r i ty pl True False src) =
             push_pending (pending r) src (Task (taskId r + 1) (AckP True i None (Some err)) None)"
  using assms
  by (simp_all add: processInvokeTask_def call_listener_def createTask_def invoke_done_def
      invoke_failed_def pending_pushTask)

lemma no_listener_reported:
  assumes "listeners e ty = []"
  shows "pending (processInvokeTask e r i ty pl False False src) =
     push_pending (pending r) src
       (Task (taskId r) (ResultP i None (Some (JObject ''Error: no listener''))) None)"
  using assms
  by (simp add: processInvokeTask_def call_listener_def createTask_def invoke_failed_def
      pending_pushTask)

lemma deferred_outcome_reported:
  assumes "listeners e ty = l # ls" and "l pl src = Defers"
  shows "pending (processInvokeTask e r i ty pl True False src) =
           push_pending (pending r) src (Task (taskId r + 1) (AckP False i None None) None)"
    and "pending (processInvokeTask e r i ty pl False False src) = pending r"
    and "pending (processInvokeTask_resume (processInvokeTask e r i ty pl withAck False src)
                    (length (suspended r)) (Resolves v)) =
           push_pending (pending (processInvokeTask e r i ty pl withAck False src)) src
             (Task (taskId r) (ResultP i (Some v) None) None)"
    and "pending (processInvokeTask_resume (processInvokeTask e r i ty pl withAck False src)
                    (length (suspended r)) (Rejects err)) =
           push_pending (pending (processInvokeTask e r i ty pl withAck False src)) src
             (Task (taskId r) (ResultP i None (Some err)) None)"
  using assms
  by (simp_all add: processInvokeTask_def call_listener_def createTask_def invoke_done_def
      invoke_failed_def pending_pushTask suspended_pushTask processInvokeTask_resume_def
      Let_def nth_append)

text \<open>
  An Ack with \<^verbatim>\<open>cached: false\<close> fulfils the pending future with
  \<^verbatim>\<open>{cached: false, result: P}\<close> for a new pending promise \<open>P\<close> and redirects the
  entry to \<open>P\<close>.
\<close>

lemma ack_rebinds:
  assumes "awaiting s k = Some d" and "resolve d < length (promises s)"
    and "promises s ! resolve d = Pending"
  shows "promises (processAckTask s False k r er) =
           (promises s @ [Pending])
             [resolve d := Fulfilled (JAcked False (JPromise (length (promises s))))]"
    and "awaiting (processAckTask s False k r er) k =
           Some (d\<lparr>resolve := length (promises s), reject := length (promises s)\<rparr>)"
  using assms
  by (simp_all add: processAckTask_def new_promise_def settle_def nth_append Let_def)

text \<open>
  A listener that throws the string \<open>boom\<close>: the Result carries it, the future of the call
  is rejected with it, and the entry is removed.
\<close>

lemma truthy_error_rejects:
  "pending (run sample_env
     [Message \<lparr>ev_data = Task 0 (InvokeP ''fail'' (JStr ''boom'') False False) None,
               ev_source = Some 2, ev_currentTarget = None\<rparr>] constructor) =
     [(DPort 2, [Task 0 (ResultP 0 None (Some (JStr ''boom''))) None])] \<and>
   promises (run sample_env
     [CallInvoke ''fail'' (JStr ''boom'') False (DPort 1) None,
      Message \<lparr>ev_data = Task 0 (ResultP 0 None (Some (JStr ''boom''))) None,
               ev_source = Some 1, ev_currentTarget = None\<rparr>] constructor) =
     [Rejected (JStr ''boom'')] \<and>
   awaiting (run sample_env
     [CallInvoke ''fail'' (JStr ''boom'') False (DPort 1) None,
      Message \<lparr>ev_data = Task 0 (ResultP 0 None (Some (JStr ''boom''))) None,
               ev_source = Some 1, ev_currentTarget = None\<rparr>] constructor) 0 = None"
  by (simp add: model_defs)

text \<open>
  C2 (the code departs from it). The listener of \<open>later\<close> returns a promise that rejects
  with the number 0. The receiving side queues a Result whose \<^verbatim>\<open>error\<close> is 0; on the
  calling side \<^verbatim>\<open>error ? reject : resolve\<close> takes 0 for "no error", and the future
  of the call is fulfilled with \<^verbatim>\<open>undefined\<close> instead of being rejected with 0.
\<close>

theorem falsy_rejection_fulfils:
  "pending (run sample_env
     [Message \<lparr>ev_data = Task 0 (InvokeP ''later'' Null False False) None,
               ev_source = Some 2, ev_currentTarget = None\<rparr>,
      HandlerSettled 0 (Rejects (JNum 0))] constructor) =
     [(DPort 2, [Task 0 (ResultP 0 None (Some (JNum 0))) None])] \<and>
   promises (run sample_env
     [CallInvoke ''later'' Null False (DPort 1) None,
      Message \<lparr>ev_data = Task 0 (ResultP 0 None (Some (JNum 0))) None,
               ev_source = Some 1, ev_currentTarget = None\<rparr>] constructor) =
     [Fulfilled Undefined]"
  by (simp add: model_defs)

text \<open>
  C4 (the code departs from it, by the defect of C2). With \<^verbatim>\<open>withAck\<close> and a
  listener that returns a promise, the receiving side queues an Ack with
  \<^verbatim>\<open>cached: false\<close> and no payload, and when the promise rejects with
  \<^verbatim>\<open>undefined\<close>, a Result whose \<^verbatim>\<open>error\<close> is \<^verbatim>\<open>undefined\<close>. On the
  calling side the Ack fulfils the first future with \<^verbatim>\<open>{cached: false, result: P}\<close>
  and rebinds the entry to the new promise \<open>P\<close> (address 1); the Result then fulfils
  \<open>P\<close> with \<^verbatim>\<open>undefined\<close> instead of rejecting it.
\<close>

theorem deferred_falsy_rejection_fulfils:
  "pending (run sample_env
     [Message \<lparr>ev_data = Task 0 (InvokeP ''later'' Null True False) None,
               ev_source = Some 2, ev_currentTarget = None\<rparr>,
      HandlerSettled 0 (Rejects Undefined)] constructor) =
     [(DPort 2, [Task 1 (AckP False 0 None None) None,
                 Task 0 (ResultP 0 None (Some Undefined)) None])] \<and>
   awaiting (run sample_env
     [CallInvoke ''later'' Null True (DPort 1) None,
      Message \<lparr>ev_data = Task 1 (AckP False 0 None None) None,
               ev_source = Some 1, ev_currentTarget = None\<rparr>] constructor) 0 =
     Some \<lparr>resolve = 1, reject = 1, taskType = ''later''\<rparr> \<and>
   promises (run sample_env
     [CallInvoke ''later'' Null True (DPort 1) None,
      Message \<lparr>ev_data = Task 1 (AckP False 0 None None) None,
               ev_source = Some 1, ev_currentTarget = None\<rparr>] constructor) =
     [Fulfilled (JAcked False (JPromise 1)), Pending] \<and>
   promises (run sample_env
     [CallInvoke ''later'' Null True (DPort 1) None,
      Message \<lparr>ev_data = Task 1 (AckP False 0 None None) None,
               ev_source = Some 1, ev_currentTarget = None\<rparr>,
      Message \<lparr>ev_data = Task 0 (ResultP 0 None (Some Undefined)) None,
               ev_source = Some 1, ev_currentTarget = None\<rparr>] constructor) =
     [Fulfilled (JAcked False (JPromise 1)), Fulfilled Undefined]"
  by (simp add: model_defs)

section \<open>Answering a ping\<close>

lemma ping_reply_queue:
  "pending (onMessage e s \<lparr>ev_data = Task i PingP tr, ev_source = src,
                            ev_currentTarget = ct\<rparr>) =
     push_pending (pending s) (or_null src) (Task (taskId s) PongP None)"
  by (simp add: onMessage_def processPingTask_def createTask_def pending_pushTask)

text \<open>
  C8 (the code departs from it). Ports 1 and 2 are attached both ways, port 3 only to listen.
  A ping arrives on port 3 in an event without \<^verbatim>\<open>source\<close> (its
  \<^verbatim>\<open>currentTarget\<close> is port 3). The pong is queued under \<^verbatim>\<open>null\<close>, and the
  flush posts it to ports 1 and 2 and not to port 3.
\<close>

theorem pong_without_source_is_broadcast:
  "pending (run sample_env
     [AttachPort 1, AttachPort 2, AttachListenPort 3, FlushTick,
      Message \<lparr>ev_data = Task 0 PingP None, ev_source = None,
               ev_currentTarget = Some 3\<rparr>] constructor) =
     [(DNull, [Task 4 PongP None])] \<and>
   effects (run sample_env
     [AttachPort 1, AttachPort 2, AttachListenPort 3, FlushTick,
      Message \<lparr>ev_data = Task 0 PingP None, ev_source = None,
               ev_currentTarget = Some 3\<rparr>,
      FlushTick] constructor) =
     [PostMessage 1 (Task 2 (BatchP [Task 0 PingP None]) None),
      PostMessage 2 (Task 3 (BatchP [Task 1 PingP None]) None),
      PostMessage 1 (Task 5 (BatchP [Task 4 PongP None]) None),
      PostMessage 2 (Task 5 (BatchP [Task 4 PongP None]) None)]"
  by (simp add: model_defs)

section \<open>The acknowledgement of a synchronous result\<close>

text \<open>
  C3 (as amended). The call is \<^verbatim>\<open>invoke(op, args, withAck = true)\<close> and the first
  listener of \<open>ty\<close> returns \<open>v\<close>, not a promise. The receiving side queues one task for
  the source, the Ack with \<^verbatim>\<open>cached: true\<close> and \<^verbatim>\<open>result: v\<close>, and suspends
  nothing, so no Result follows. On the calling side, where the future of the call is still
  pending, that Ack makes a new promise already fulfilled with \<open>v\<close> and fulfils the future
  with \<^verbatim>\<open>{cached: true, result: that promise}\<close>.
\<close>

theorem cached_ack_resolves:
  assumes "listeners e ty = l # ls" and "l pl (source_of src ct) = Returns v"
    and "awaiting s i = Some d" and "resolve d < length (promises s)"
    and "promises s ! resolve d = Pending"
  shows "pending (onMessage e r \<lparr>ev_data = Task i (InvokeP ty pl True False) tr,
                                  ev_source = src, ev_currentTarget = ct\<rparr>) =
           push_pending (pending r) (source_of src ct)
             (Task (taskId r + 1) (AckP True i (Some v) None) None) \<and>
         suspended (onMessage e r \<lparr>ev_data = Task i (InvokeP ty pl True False) tr,
                                    ev_source = src, ev_currentTarget = ct\<rparr>) = suspended r \<and>
         promises (onMessage e' s \<lparr>ev_data = Task (taskId r + 1) (AckP True i (Some v) None) None,
                                   ev_source = src', ev_currentTarget = ct'\<rparr>) =
           (promises s @ [Fulfilled v])
             [resolve d := Fulfilled (JAcked True (JPromise (length (promises s))))]"
proof -
  have recv: "processInvokeTask e r i ty pl True False (source_of src ct) =
      pushTask (r\<lparr>taskId := taskId r + 2\<rparr>)
        (Task (taskId r + 1) (AckP True i (Some v) None) None) (source_of src ct)"
    using assms(1,2)
    by (simp add: processInvokeTask_def createTask_def call_listener_def)
  have send: "promises (processAckTask s True i (Some v) None) =
      (promises s @ [Fulfilled v])
        [resolve d := Fulfilled (JAcked True (JPromise (length (promises s))))]"
    using assms(3,4,5)
    by (simp add: processAckTask_def new_promise_def settle_def nth_append)
  show ?thesis
    by (simp add: onMessage_def recv send pending_pushTask suspended_pushTask)
qed

theorem cached_ack_resolves_witness:
  "listeners sample_env ''now'' = [\<lambda>pl src. Returns pl] \<and>
   awaiting (snd (invoke constructor ''now'' (JNum 1) True (DPort 1) None)) 0 =
     Some \<lparr>resolve = 0, reject = 0, taskType = ''now''\<rparr> \<and>
   promises (snd (invoke constructor ''now'' (JNum 1) True (DPort 1) None)) ! 0 = Pending \<and>
   pending (onMessage sample_env constructor
      \<lparr>ev_data = Task 0 (InvokeP ''now'' (JNum 1) True False) None,
       ev_source = Some 2, ev_currentTarget = None\<rparr>) =
     [(DPort 2, [Task 1 (AckP True 0 (Some (JNum 1)) None) None])] \<and>
   suspended (onMessage sample_env constructor
      \<lparr>ev_data = Task 0 (InvokeP ''now'' (JNum 1) True False) None,
       ev_source = Some 2, ev_currentTarget = None\<rparr>) = [] \<and>
   promises (onMessage sample_env (snd (invoke constructor ''now'' (JNum 1) True (DPort 1) None))
      \<lparr>ev_data = Task 1 (AckP True 0 (Some (JNum 1)) None) None,
       ev_source = Some 1, ev_currentTarget = None\<rparr>) =
     [Fulfilled (JAcked True (JPromise 1)), Fulfilled (JNum 1)]"
  using cached_ack_resolves [where e = sample_env and ty = "''now''"
      and l = "\<lambda>pl src. Returns pl" and ls = "[]" and pl = "JNum 1" and src = "Some 2"
      and ct = None and v = "JNum 1"
      and s = "snd (invoke constructor ''now'' (JNum 1) True (DPort 1) None)" and i = 0
      and d = "\<lparr>resolve = 0, reject = 0, taskType = ''now''\<rparr>" and r = constructor
      and tr = None and e' = sample_env and src' = "Some 1" and ct' = None]
  by (simp add: model_defs)

text \<open>
  C3 as stated fails: the value of the future is not \<^verbatim>\<open>{cached: true, result: 1}\<close>;
  its \<^verbatim>\<open>result\<close> is a promise.
\<close>

theorem cached_ack_result_is_promise:
  "promises (run sample_env
     [CallInvoke ''now'' (JNum 1) True (DPort 1) None,
      Message \<lparr>ev_data = Task 1 (AckP True 0 (Some (JNum 1)) None) None,
               ev_source = Some 1, ev_currentTarget = None\<rparr>] constructor) ! 0
   \<noteq> Fulfilled (JAcked True (JNum 1))"
  by (simp add: model_defs)

section \<open>Batching\<close>

lemma merge_tasks_open:
  "list_all (\<lambda>t. transfer t = None) ts \<Longrightarrow>
   merge_tasks s (out @ [Task b (BatchP xs) tr]) True ts =
     (out @ [Task b (BatchP (xs @ ts)) tr], s)"
  by (induction ts arbitrary: xs) auto

lemma merge_tasks_plain:
  assumes "list_all (\<lambda>t. transfer t = None) ts" and "ts \<noteq> []"
  shows "merge_tasks s out False ts =
     (out @ [Task (taskId s) (BatchP ts) None], s\<lparr>taskId := taskId s + 1\<rparr>)"
proof (cases ts)
  case Nil
  with assms show ?thesis by simp
next
  case (Cons t ts')
  with assms have "list_all (\<lambda>t. transfer t = None) ts'" and "transfer t = None" by auto
  then show ?thesis
    using merge_tasks_open [of ts' "s\<lparr>taskId := taskId s + 1\<rparr>" out "taskId s" "[t]" None]
    by (simp add: Cons createTask_def)
qed

lemma merge_tasks_batch_of:
  assumes "list_all (\<lambda>t. transfer t = None) ts"
  shows "merge_tasks s out False ts =
     (out @ batch_of (taskId s) ts, s\<lparr>taskId := taskId s + length (batch_of (taskId s) ts)\<rparr>)"
  using assms merge_tasks_plain [of ts s out] by (cases "ts = []") (auto simp: batch_of_def)

lemma merge_tasks_open_until:
  "list_all (\<lambda>t. transfer t = None) xs \<Longrightarrow> transfer t \<noteq> None \<Longrightarrow>
   merge_tasks s (out @ [Task b (BatchP zs) tr]) True (xs @ t # ys) =
     merge_tasks s (out @ [Task b (BatchP (zs @ xs)) tr, t]) False ys"
  by (induction xs arbitrary: zs) auto

lemma merge_tasks_split:
  assumes "list_all (\<lambda>t. transfer t = None) xs" and "list_all (\<lambda>t. transfer t = None) ys"
    and "transfer t \<noteq> None"
  shows "fst (merge_tasks s [] False (xs @ t # ys)) =
     batch_of (taskId s) xs @ [t] @ batch_of (taskId s + length (batch_of (taskId s) xs)) ys"
proof (cases xs)
  case Nil
  then show ?thesis using assms(2,3) by (simp add: merge_tasks_batch_of batch_of_def)
next
  case (Cons x xs')
  with assms(1) have x: "transfer x = None" and xs': "list_all (\<lambda>t. transfer t = None) xs'"
    by auto
  have "merge_tasks s [] False (xs @ t # ys) =
      merge_tasks (s\<lparr>taskId := taskId s + 1\<rparr>) ([] @ [Task (taskId s) (BatchP [x]) None]) True
        (xs' @ t # ys)"
    using x by (simp add: Cons createTask_def)
  also have "\<dots> = merge_tasks (s\<lparr>taskId := taskId s + 1\<rparr>)
      ([] @ [Task (taskId s) (BatchP ([x] @ xs')) None, t]) False ys"
    using xs' assms(3) by (rule merge_tasks_open_until)
  finally show ?thesis
    using assms(2) by (simp add: merge_tasks_batch_of batch_of_def Cons)
qed

lemma effects_fold_send_task:
  "effects (fold (send_task e (DPort p)) tasks s) =
     effects s @ map (\<lambda>t. if IS_SERVICE_WORKER e then NotifyAll t else PostMessage p t) tasks"
  by (induction tasks arbitrary: s) (auto simp: send_task_def postMessage_def)

lemma effects_merge_tasks: "effects (snd (merge_tasks s out b ts)) = effects s"
  by (induction s out b ts rule: merge_tasks.induct) (auto simp: createTask_def)

lemma release_port_effects:
  "effects (release_port e (DPort p, ts) s) =
     effects s @ map (\<lambda>t. if IS_SERVICE_WORKER e then NotifyAll t else PostMessage p t)
       (fst (merge_tasks s [] False ts))"
proof (cases "merge_tasks s [] False ts")
  case (Pair tasks s')
  then have "effects s' = effects s"
    using effects_merge_tasks [of s "[]" False ts] by simp
  with Pair show ?thesis
    by (simp add: release_port_def effects_fold_send_task)
qed

text \<open>
  C5 (as amended). Of the flush, the part for one destination port \<open>p\<close> with queue
  \<open>ts\<close> (and all of the flush when that is the only queue): if \<open>ts\<close> is not empty
  and no task of it carries a transfer list, exactly one task goes to the transport, a new
  Batch holding \<open>ts\<close> in their order. If one task \<open>t\<close> of \<open>ts\<close> carries a transfer
  list, the others do not and there is at least one other, then the tasks before \<open>t\<close> go
  in one Batch (if there are any), \<open>t\<close> goes as it is, the tasks after \<open>t\<close> go in a
  second Batch (if there are any), and there are at least 2 sends. A send is
  \<^verbatim>\<open>port.postMessage\<close>, or \<^verbatim>\<open>notifyAll\<close> in a service worker.
\<close>

theorem flush_batches:
  "(ts \<noteq> [] \<and> list_all (\<lambda>t. transfer t = None) ts \<longrightarrow>
      effects (release_port e (DPort p, ts) s) =
        effects s @ [if IS_SERVICE_WORKER e then NotifyAll (Task (taskId s) (BatchP ts) None)
                     else PostMessage p (Task (taskId s) (BatchP ts) None)]) \<and>
   (\<forall>xs t ys. ts = xs @ t # ys \<and> list_all (\<lambda>t. transfer t = None) xs \<and>
       list_all (\<lambda>t. transfer t = None) ys \<and> transfer t \<noteq> None \<and> xs @ ys \<noteq> [] \<longrightarrow>
      effects (release_port e (DPort p, ts) s) =
        effects s @ map (\<lambda>t. if IS_SERVICE_WORKER e then NotifyAll t else PostMessage p t)
          (batch_of (taskId s) xs @ [t] @
           batch_of (taskId s + length (batch_of (taskId s) xs)) ys) \<and>
      2 \<le> length (batch_of (taskId s) xs @ [t] @
                  batch_of (taskId s + length (batch_of (taskId s) xs)) ys)) \<and>
   (pending s = [(DPort p, ts)] \<longrightarrow>
      effects (releasePending_resume e s) = effects (release_port e (DPort p, ts) s) \<and>
      pending (releasePending_resume e s) = [])"
proof (intro conjI impI allI)
  assume "ts \<noteq> [] \<and> list_all (\<lambda>t. transfer t = None) ts"
  then show "effects (release_port e (DPort p, ts) s) =
        effects s @ [if IS_SERVICE_WORKER e then NotifyAll (Task (taskId s) (BatchP ts) None)
                     else PostMessage p (Task (taskId s) (BatchP ts) None)]"
    by (simp add: release_port_effects merge_tasks_plain)
next
  fix xs t ys
  assume a: "ts = xs @ t # ys \<and> list_all (\<lambda>t. transfer t = None) xs \<and>
       list_all (\<lambda>t. transfer t = None) ys \<and> transfer t \<noteq> None \<and> xs @ ys \<noteq> []"
  then show "effects (release_port e (DPort p, ts) s) =
        effects s @ map (\<lambda>t. if IS_SERVICE_WORKER e then NotifyAll t else PostMessage p t)
          (batch_of (taskId s) xs @ [t] @
           batch_of (taskId s + length (batch_of (taskId s) xs)) ys)"
    using merge_tasks_split [of xs ys t s] by (simp add: release_port_effects)
  from a show "2 \<le> length (batch_of (taskId s) xs @ [t] @
                  batch_of (taskId s + length (batch_of (taskId s) xs)) ys)"
    by (auto simp: batch_of_def)
next
  assume "pending s = [(DPort p, ts)]"
  then show "effects (releasePending_resume e s) = effects (release_port e (DPort p, ts) s)"
    by (simp add: releasePending_resume_def)
next
  show "pending (releasePending_resume e s) = []"
    by (simp add: releasePending_resume_def)
qed


theorem flush_batches_witness:
  "effects (release_port sample_env
      (DPort 1, [Task 0 (InvokeP ''a'' Null False True) None,
                 Task 1 (InvokeP ''b'' Null False True) None])
      (constructor\<lparr>taskId := 2\<rparr>)) =
     [PostMessage 1 (Task 2 (BatchP [Task 0 (InvokeP ''a'' Null False True) None,
                                      Task 1 (InvokeP ''b'' Null False True) None]) None)] \<and>
   effects (release_port sample_env
      (DPort 1, [Task 0 (InvokeP ''a'' Null False True) None,
                 Task 1 (InvokeP ''b'' Null False True) (Some [7]),
                 Task 2 (InvokeP ''c'' Null False True) None])
      (constructor\<lparr>taskId := 3\<rparr>)) =
     [PostMessage 1 (Task 3 (BatchP [Task 0 (InvokeP ''a'' Null False True) None]) None),
      PostMessage 1 (Task 1 (InvokeP ''b'' Null False True) (Some [7])),
      PostMessage 1 (Task 4 (BatchP [Task 2 (InvokeP ''c'' Null False True) None]) None)]"
proof -
  have sw: "\<not> IS_SERVICE_WORKER sample_env" by (simp add: sample_env_def)
  have one: "effects (release_port sample_env
      (DPort 1, [Task 0 (InvokeP ''a'' Null False True) None,
                 Task 1 (InvokeP ''b'' Null False True) None])
      (constructor\<lparr>taskId := 2\<rparr>)) =
     [PostMessage 1 (Task 2 (BatchP [Task 0 (InvokeP ''a'' Null False True) None,
                                      Task 1 (InvokeP ''b'' Null False True) None]) None)]"
    using flush_batches [where ts = "[Task 0 (InvokeP ''a'' Null False True) None,
                 Task 1 (InvokeP ''b'' Null False True) None]" and e = sample_env and p = 1
        and s = "constructor\<lparr>taskId := 2\<rparr>"] sw
    by (simp add: constructor_def)
  have two: "effects (release_port sample_env
      (DPort 1, [Task 0 (InvokeP ''a'' Null False True) None,
                 Task 1 (InvokeP ''b'' Null False True) (Some [7]),
                 Task 2 (InvokeP ''c'' Null False True) None])
      (constructor\<lparr>taskId := 3\<rparr>)) =
     [PostMessage 1 (Task 3 (BatchP [Task 0 (InvokeP ''a'' Null False True) None]) None),
      PostMessage 1 (Task 1 (InvokeP ''b'' Null False True) (Some [7])),
      PostMessage 1 (Task 4 (BatchP [Task 2 (InvokeP ''c'' Null False True) None]) None)]"
    using flush_batches [where ts = "[Task 0 (InvokeP ''a'' Null False True) None,
                 Task 1 (InvokeP ''b'' Null False True) (Some [7]),
                 Task 2 (InvokeP ''c'' Null False True) None]" and e = sample_env and p = 1
        and s = "constructor\<lparr>taskId := 3\<rparr>", THEN conjunct2, THEN conjunct1, rule_format,
        of "[Task 0 (InvokeP ''a'' Null False True) None]" "Task 1 (InvokeP ''b'' Null False True) (Some [7])"
           "[Task 2 (InvokeP ''c'' Null False True) None]"] sw
    by (simp add: constructor_def batch_of_def)
  show ?thesis using one two by simp
qed

text \<open>
  C5 as stated fails when the task with the transfer list is the only one queued: the flush
  then sends once.
\<close>

theorem lone_transfer_one_send:
  "effects (run sample_env
     [AttachListenPort 1, CallInvokeVoid ''b'' Null (DPort 1) (Some [7]), FlushTick]
     constructor) =
   [PostMessage 1 (Task 0 (InvokeP ''b'' Null False True) (Some [7]))]"
  by (simp add: model_defs)

section \<open>Operations that only enqueue\<close>

lemma prefix_queued_push: "prefix (queued q d') (queued (push_pending q d t) d')"
  by (cases "d' = d") (simp_all add: queued_push_same queued_push_other)

lemma only_enqueues_refl: "only_enqueues s s"
  by (simp add: only_enqueues_def)

lemma only_enqueues_trans:
  "only_enqueues s s' \<Longrightarrow> only_enqueues s' s'' \<Longrightarrow> only_enqueues s s''"
  unfolding only_enqueues_def by (metis prefix_order.trans)

lemma only_enqueues_pushTask: "only_enqueues s (pushTask s t d)"
  by (simp add: only_enqueues_def pushTask_def releasePending_def prefix_queued_push)

lemma only_enqueues_pushTask':
  "only_enqueues s s1 \<Longrightarrow> only_enqueues s (pushTask s1 t d)"
  using only_enqueues_pushTask only_enqueues_trans by blast

lemma only_enqueues_fields:
  "only_enqueues s s1 \<Longrightarrow> only_enqueues s (s1\<lparr>taskId := a\<rparr>)"
  "only_enqueues s s1 \<Longrightarrow> only_enqueues s (s1\<lparr>promises := b\<rparr>)"
  "only_enqueues s s1 \<Longrightarrow> only_enqueues s (s1\<lparr>awaiting := c\<rparr>)"
  "only_enqueues s s1 \<Longrightarrow> only_enqueues s (s1\<lparr>pings := f\<rparr>)"
  "only_enqueues s s1 \<Longrightarrow> only_enqueues s (s1\<lparr>pingResolves := g\<rparr>)"
  "only_enqueues s s1 \<Longrightarrow> only_enqueues s (s1\<lparr>pingTimers := h\<rparr>)"
  "only_enqueues s s1 \<Longrightarrow> only_enqueues s (s1\<lparr>suspended := k\<rparr>)"
  by (simp_all add: only_enqueues_def)

lemmas oe = only_enqueues_refl only_enqueues_pushTask' only_enqueues_fields

lemma only_enqueues_fold:
  "(\<And>x s1. x \<in> set xs \<Longrightarrow> only_enqueues s1 (f x s1)) \<Longrightarrow> only_enqueues s (fold f xs s)"
proof (induction xs arbitrary: s)
  case Nil
  show ?case by (simp add: only_enqueues_refl)
next
  case (Cons x xs)
  have "only_enqueues s (f x s)" using Cons.prems by simp
  moreover have "only_enqueues (f x s) (fold f xs (f x s))"
    using Cons.IH Cons.prems by simp
  ultimately show ?case using only_enqueues_trans by simp
qed

lemma only_enqueues_invokeVoid: "only_enqueues s (invokeVoid s ty pl d tr)"
  by (simp add: invokeVoid_def createInvokeTask_def createTask_def oe)

lemma only_enqueues_invoke: "only_enqueues s (snd (invoke s ty pl withAck d tr))"
  by (simp add: invoke_def new_promise_def createInvokeTask_def createTask_def oe)

lemma only_enqueues_invokeExceptSource: "only_enqueues s (invokeExceptSource s ty pl src)"
  unfolding invokeExceptSource_def
  by (rule only_enqueues_fold) (rule only_enqueues_invokeVoid)

lemma only_enqueues_sendPing: "only_enqueues s (sendPing s p)"
  by (simp add: sendPing_def createTask_def Let_def oe)

lemma only_enqueues_settle: "only_enqueues s s1 \<Longrightarrow> only_enqueues s (settle s1 p st)"
  by (simp add: settle_def oe)

lemma only_enqueues_processResultTask: "only_enqueues s (processResultTask s k r er)"
  by (simp add: processResultTask_def Let_def oe only_enqueues_settle split: option.splits)

lemma only_enqueues_processAckTask: "only_enqueues s (processAckTask s c k r er)"
  by (simp add: processAckTask_def new_promise_def Let_def oe only_enqueues_settle
      split: option.splits)

lemma only_enqueues_processPingTask: "only_enqueues s (processPingTask s src)"
  by (simp add: processPingTask_def createTask_def oe)

lemma only_enqueues_ping_resolved: "only_enqueues s s1 \<Longrightarrow> only_enqueues s (ping_resolved e s1 i)"
  by (simp add: ping_resolved_def Let_def oe)

lemma only_enqueues_processPongTask: "only_enqueues s (processPongTask e s src)"
  by (simp add: processPongTask_def oe only_enqueues_ping_resolved split: dest.splits option.splits)

lemma only_enqueues_invoke_failed: "only_enqueues s s1 \<Longrightarrow> only_enqueues s (invoke_failed s1 f err)"
  by (simp add: invoke_failed_def oe split: option.splits)

lemma only_enqueues_invoke_done: "only_enqueues s s1 \<Longrightarrow> only_enqueues s (invoke_done s1 f v)"
  by (simp add: invoke_done_def oe split: option.splits)

lemma only_enqueues_processInvokeTask:
  "only_enqueues s (processInvokeTask e s i ty pl withAck void src)"
  by (simp add: processInvokeTask_def createTask_def Let_def oe only_enqueues_invoke_failed
      only_enqueues_invoke_done split: outcome.splits option.splits)

lemma only_enqueues_resume: "only_enqueues s (processInvokeTask_resume s k st)"
  by (simp add: processInvokeTask_resume_def Let_def oe only_enqueues_invoke_failed
      only_enqueues_invoke_done split: settlement.splits)

lemma only_enqueues_dispatch: "only_enqueues s (dispatch e src ct t s)"
proof (induction e src ct t s rule: dispatch.induct)
  case (1 e src ct i ts tr s)
  show ?case
    by (simp, rule only_enqueues_fold) (rule 1)
qed (simp_all add: only_enqueues_processResultTask only_enqueues_processAckTask
    only_enqueues_processInvokeTask only_enqueues_processPingTask only_enqueues_processPongTask)

lemma only_enqueues_ping_interval: "only_enqueues s (ping_interval s k)"
proof -
  have "\<And>s1 p. only_enqueues s s1 \<Longrightarrow> only_enqueues s (sendPing s1 p)"
    using only_enqueues_sendPing only_enqueues_trans by blast
  then show ?thesis
    by (simp add: ping_interval_def Let_def oe)
qed

section \<open>Tasks queued while no listen port is attached\<close>

lemma only_enqueues_idle:
  "only_enqueues s s' \<Longrightarrow> idle s \<Longrightarrow> idle s' \<and> kept s s'"
  by (auto simp: only_enqueues_def idle_def kept_def)

lemma kept_trans: "kept s s' \<Longrightarrow> kept s' s'' \<Longrightarrow> kept s s''"
  unfolding kept_def by (metis prefix_order.trans)

lemma attachSendPort_idle:
  assumes "idle s" shows "idle (attachSendPort e s p) \<and> kept s (attachSendPort e s p)"
proof -
  let ?s1 = "(if has_start e p then s\<lparr>effects := effects s @ [Start p]\<rparr> else s)\<lparr>sendPorts := sendPorts s @ [p]\<rparr>"
  have a: "idle ?s1 \<and> kept s ?s1" using assms by (simp add: idle_def kept_def sends_def)
  have "only_enqueues ?s1 (sendPing ?s1 p)" by (rule only_enqueues_sendPing)
  with a have "idle (sendPing ?s1 p) \<and> kept ?s1 (sendPing ?s1 p)"
    using only_enqueues_idle by blast
  with a have "idle (sendPing ?s1 p) \<and> kept s (sendPing ?s1 p)"
    using kept_trans by blast
  moreover have "attachSendPort e s p = sendPing ?s1 p"
    by (simp add: attachSendPort_def Let_def)
  ultimately show ?thesis by simp
qed

lemma ping_timeout_idle:
  assumes "idle s" shows "idle (ping_timeout e s i) \<and> kept s (ping_timeout e s i)"
  using assms by (simp add: ping_timeout_def idle_def kept_def sends_def Let_def)

lemma step_idle:
  assumes "idle s" and "\<not> attaches_listen ev"
  shows "idle (step e ev s) \<and> kept s (step e ev s)"
proof -
  have oi: "\<And>s'. only_enqueues s s' \<Longrightarrow> idle s' \<and> kept s s'"
    using assms(1) only_enqueues_idle by blast
  show ?thesis
  proof (cases ev)
    case (AttachPort p)
    then show ?thesis using assms by simp
  next
    case (AttachListenPort p)
    then show ?thesis using assms by simp
  next
    case (AttachSendPort p)
    then show ?thesis using assms attachSendPort_idle by simp
  next
    case (CallInvoke ty pl withAck d tr)
    then show ?thesis using oi only_enqueues_invoke by simp
  next
    case (CallInvokeVoid ty pl d tr)
    then show ?thesis using oi only_enqueues_invokeVoid by simp
  next
    case (CallInvokeExceptSource ty pl src)
    then show ?thesis using oi only_enqueues_invokeExceptSource by simp
  next
    case (Message m)
    then show ?thesis using oi only_enqueues_dispatch by (simp add: onMessage_def)
  next
    case FlushTick
    then show ?thesis using assms by (simp add: idle_def kept_def)
  next
    case (PingTimeout i)
    then show ?thesis using assms ping_timeout_idle by simp
  next
    case (PingInterval k)
    then show ?thesis using oi only_enqueues_ping_interval by simp
  next
    case (HandlerSettled k st)
    then show ?thesis using oi only_enqueues_resume by simp
  qed
qed

lemma run_idle:
  "idle s \<Longrightarrow> list_all (\<lambda>ev. \<not> attaches_listen ev) evs \<Longrightarrow>
     idle (run e evs s) \<and> kept s (run e evs s)"
proof (induction evs arbitrary: s)
  case Nil
  then show ?case by (simp add: run_def kept_def)
next
  case (Cons ev evs)
  then have 1: "idle (step e ev s) \<and> kept s (step e ev s)" using step_idle by simp
  with Cons have "idle (run e evs (step e ev s)) \<and> kept (step e ev s) (run e evs (step e ev s))"
    by simp
  with 1 show ?case using kept_trans by (auto simp: run_def)
qed

lemma step_no_flush_scheduled:
  assumes "\<not> releasingPending s"
  shows "sends (effects (step e ev s)) = sends (effects s) \<and>
         (releasingPending (step e ev s) \<longrightarrow> listenPorts (step e ev s) \<noteq> [])"
proof -
  have oe: "\<And>s'. only_enqueues s s' \<Longrightarrow> sends (effects s') = sends (effects s) \<and>
         (releasingPending s' \<longrightarrow> listenPorts s' \<noteq> [])"
    using assms by (auto simp: only_enqueues_def)
  show ?thesis
  proof (cases ev)
    case (AttachPort p)
    then show ?thesis
      by (simp add: attachPort_def attachSendPort_def attachListenPort_def sendPing_def
          createTask_def pushTask_def releasePending_def sends_def Let_def)
  next
    case (AttachListenPort p)
    then show ?thesis by (simp add: attachListenPort_def)
  next
    case (AttachSendPort p)
    then show ?thesis using assms
      by (simp add: attachSendPort_def sendPing_def
          createTask_def pushTask_def releasePending_def sends_def Let_def)
  next
    case FlushTick
    then show ?thesis using assms by simp
  next
    case (PingTimeout i)
    then show ?thesis using assms by (simp add: ping_timeout_def sends_def Let_def)
  next
    case (CallInvoke ty pl withAck d tr)
    then show ?thesis using oe only_enqueues_invoke by simp
  next
    case (CallInvokeVoid ty pl d tr)
    then show ?thesis using oe only_enqueues_invokeVoid by simp
  next
    case (CallInvokeExceptSource ty pl src)
    then show ?thesis using oe only_enqueues_invokeExceptSource by simp
  next
    case (Message m)
    then show ?thesis using oe only_enqueues_dispatch by (simp add: onMessage_def)
  next
    case (PingInterval k)
    then show ?thesis using oe only_enqueues_ping_interval by simp
  next
    case (HandlerSettled k st)
    then show ?thesis using oe only_enqueues_resume by simp
  qed
qed

text \<open>
  C9 (as amended). In a state with no listen port and no flush under way:
  \<^verbatim>\<open>releasePending\<close> returns the state as it is (nothing sent, no queue cleared); and
  through any run of events that attaches no listen port there is still no listen port and
  no flush under way, the transport sends are those made before, and every queue still
  starts with the tasks it held (they stay buffered, in order). And in any state with no
  flush under way, no event sends anything itself, an event leaves a flush scheduled only
  if a listen port is attached when it ends, and attaching a listen port schedules none:
  only an enqueue (\<^verbatim>\<open>pushTask\<close> is the one caller of \<^verbatim>\<open>releasePending\<close>)
  made while a listen port is attached does.
\<close>

theorem buffered_without_listen_port:
  assumes "listenPorts s = []" and "\<not> releasingPending s"
  shows "releasePending s = s \<and>
    (\<forall>evs. list_all (\<lambda>ev. \<not> attaches_listen ev) evs \<longrightarrow>
       listenPorts (run e evs s) = [] \<and> \<not> releasingPending (run e evs s) \<and>
       sends (effects (run e evs s)) = sends (effects s) \<and>
       (\<forall>d. prefix (queued (pending s) d) (queued (pending (run e evs s)) d))) \<and>
    (\<forall>s1 ev p. \<not> releasingPending s1 \<longrightarrow>
       sends (effects (step e ev s1)) = sends (effects s1) \<and>
       (releasingPending (step e ev s1) \<longrightarrow> listenPorts (step e ev s1) \<noteq> []) \<and>
       \<not> releasingPending (step e (AttachListenPort p) s1))"
proof (intro conjI allI impI)
  show "releasePending s = s" using assms by (simp add: releasePending_def)
next
  fix evs
  assume "list_all (\<lambda>ev. \<not> attaches_listen ev) evs"
  then have r: "idle (run e evs s) \<and> kept s (run e evs s)"
    using assms run_idle [of s evs e] by (simp add: idle_def)
  from r show "listenPorts (run e evs s) = []" by (simp add: idle_def)
  from r show "\<not> releasingPending (run e evs s)" by (simp add: idle_def)
  from r show "sends (effects (run e evs s)) = sends (effects s)" by (simp add: kept_def)
  fix d
  from r show "prefix (queued (pending s) d) (queued (pending (run e evs s)) d)"
    by (simp add: kept_def)
next
  fix s1 :: smp and ev :: event and p :: port
  assume a: "\<not> releasingPending s1"
  then show "sends (effects (step e ev s1)) = sends (effects s1)"
    using step_no_flush_scheduled by blast
next
  fix s1 :: smp and ev :: event and p :: port
  assume "\<not> releasingPending s1" and "releasingPending (step e ev s1)"
  then show "listenPorts (step e ev s1) \<noteq> []"
    using step_no_flush_scheduled by blast
next
  fix s1 :: smp and ev :: event and p :: port
  assume "\<not> releasingPending s1"
  then show "\<not> releasingPending (step e (AttachListenPort p) s1)"
    by (simp add: attachListenPort_def)
qed

theorem buffered_without_listen_port_witness:
  "listenPorts constructor = [] \<and> \<not> releasingPending constructor \<and>
   releasePending constructor = constructor \<and>
   sends (effects (run sample_env
      [CallInvokeVoid ''a'' Null (DPort 1) None, AttachSendPort 1, FlushTick,
       CallInvokeVoid ''b'' Null (DPort 1) None] constructor)) = [] \<and>
   pending (run sample_env
      [CallInvokeVoid ''a'' Null (DPort 1) None, AttachSendPort 1, FlushTick,
       CallInvokeVoid ''b'' Null (DPort 1) None] constructor) =
     [(DPort 1, [Task 0 (InvokeP ''a'' Null False True) None, Task 1 PingP None,
                 Task 2 (InvokeP ''b'' Null False True) None])] \<and>
   \<not> releasingPending (run sample_env
      [CallInvokeVoid ''a'' Null (DPort 1) None, AttachSendPort 1, FlushTick,
       CallInvokeVoid ''b'' Null (DPort 1) None] constructor)"
  using buffered_without_listen_port [where s = constructor and e = sample_env,
      THEN conjunct2, THEN conjunct1, rule_format,
      of "[CallInvokeVoid ''a'' Null (DPort 1) None, AttachSendPort 1, FlushTick,
           CallInvokeVoid ''b'' Null (DPort 1) None]"]
    buffered_without_listen_port [where s = constructor and e = sample_env, THEN conjunct1]
  by (simp add: model_defs sends_def)

text \<open>
  C9 as stated fails when a flush is already under way as the last listen port goes: port 1
  is attached, \<open>a\<close> is queued (which schedules the flush), the ping of port 1 times out
  (no listen port is left), \<open>b\<close> is queued (\<^verbatim>\<open>releasePending\<close> returns at once),
  and the flush scheduled for \<open>a\<close> then delivers \<open>b\<close> with it, with no later enqueue.
\<close>

theorem delivered_by_earlier_flush:
  "listenPorts (run sample_env
     [AttachPort 1, FlushTick, CallInvokeVoid ''a'' Null (DPort 1) None, PingTimeout 0]
     constructor) = [] \<and>
   effects (run sample_env
     [AttachPort 1, FlushTick, CallInvokeVoid ''a'' Null (DPort 1) None, PingTimeout 0,
      CallInvokeVoid ''b'' Null (DPort 1) None]
     constructor) =
     [PostMessage 1 (Task 1 (BatchP [Task 0 PingP None]) None), Close 1] \<and>
   queued (pending (run sample_env
     [AttachPort 1, FlushTick, CallInvokeVoid ''a'' Null (DPort 1) None, PingTimeout 0,
      CallInvokeVoid ''b'' Null (DPort 1) None]
     constructor)) (DPort 1) =
     [Task 2 (InvokeP ''a'' Null False True) None, Task 3 (InvokeP ''b'' Null False True) None] \<and>
   effects (run sample_env
     [AttachPort 1, FlushTick, CallInvokeVoid ''a'' Null (DPort 1) None, PingTimeout 0,
      CallInvokeVoid ''b'' Null (DPort 1) None, FlushTick]
     constructor) =
     [PostMessage 1 (Task 1 (BatchP [Task 0 PingP None]) None), Close 1,
      PostMessage 1 (Task 4 (BatchP [Task 2 (InvokeP ''a'' Null False True) None,
                                      Task 3 (InvokeP ''b'' Null False True) None]) None)]"
  by (simp add: model_defs)

section \<open>A destination whose ping is not answered\<close>



















end
